theory Spec2Isabelle
  imports Complex_Main
begin

section \<open>Exceptions\<close>

text \<open>
  Neither function has a \<^verbatim>\<open>raise\<close> or a \<^verbatim>\<open>try\<close> of its own. A call can still end in an
  exception raised underneath it; the one place where that happens on the inputs
  modelled here is \<^verbatim>\<open>range\<close> applied to a float, a \<^verbatim>\<open>TypeError\<close>. A function that can
  raise returns \<open>Inl\<close> of the exception, and \<open>Inr\<close> of its value otherwise.
\<close>

datatype error = TypeError

section \<open>Label font size\<close>

text \<open>
  \<^verbatim>\<open>get_font_size(text)\<close> looks only at \<^verbatim>\<open>len(text)\<close>. A Python \<^verbatim>\<open>str\<close> is a
  sequence of code points, so the text is a list whose element type is left open; the
  four branches are the source's \<^verbatim>\<open>if\<close>/\<^verbatim>\<open>elif\<close> chain in its order.
\<close>

definition get_font_size :: "'c list \<Rightarrow> int" where
  "get_font_size text =
     (let length = length text in
      if length \<le> 14 then 10
      else if length \<le> 18 then 9
      else if length \<le> 22 then 8
      else 7)"


section \<open>Axis limits\<close>

subsection \<open>float64 values\<close>

text \<open>
  \<^verbatim>\<open>adjust_limits\<close> computes with numpy \<^verbatim>\<open>float64\<close> scalars. A finite float is
  taken as the real number it denotes and finite arithmetic is exact (rounding to
  53 bits, overflow and the sign of zero are left out); the three special values are
  kept, with numpy's rules for them, because \<^verbatim>\<open>log10(0)\<close> produces one. Under numpy's
  default error state an invalid operation or a division by zero only warns and
  yields \<^verbatim>\<open>nan\<close> or an infinity: none of the operations below raises.
\<close>

datatype npfloat = Fin real | PInf | NInf | NaN

fun np_abs :: "npfloat \<Rightarrow> npfloat" where
  "np_abs (Fin x) = Fin \<bar>x\<bar>"
| "np_abs PInf = PInf"
| "np_abs NInf = PInf"
| "np_abs NaN = NaN"

fun np_lt :: "npfloat \<Rightarrow> npfloat \<Rightarrow> bool" where
  "np_lt NaN _ = False"
| "np_lt _ NaN = False"
| "np_lt (Fin x) (Fin y) = (x < y)"
| "np_lt PInf _ = False"
| "np_lt _ NInf = False"
| "np_lt _ _ = True"

fun np_le :: "npfloat \<Rightarrow> npfloat \<Rightarrow> bool" where
  "np_le NaN _ = False"
| "np_le _ NaN = False"
| "np_le (Fin x) (Fin y) = (x \<le> y)"
| "np_le NInf _ = True"
| "np_le _ PInf = True"
| "np_le _ _ = False"

text \<open>Python's builtin \<^verbatim>\<open>max(a, b)\<close> keeps \<open>a\<close> unless \<open>b > a\<close>.\<close>

definition py_max :: "npfloat \<Rightarrow> npfloat \<Rightarrow> npfloat" where
  "py_max a b = (if np_lt a b then b else a)"

fun np_log10 :: "npfloat \<Rightarrow> npfloat" where
  "np_log10 (Fin x) = (if 0 < x then Fin (log 10 x) else if x = 0 then NInf else NaN)"
| "np_log10 PInf = PInf"
| "np_log10 NInf = NaN"
| "np_log10 NaN = NaN"

fun np_floor :: "npfloat \<Rightarrow> npfloat" where
  "np_floor (Fin x) = Fin (of_int \<lfloor>x\<rfloor>)"
| "np_floor v = v"

fun np_ceil :: "npfloat \<Rightarrow> npfloat" where
  "np_ceil (Fin x) = Fin (of_int \<lceil>x\<rceil>)"
| "np_ceil v = v"

text \<open>\<^verbatim>\<open>10 ** x\<close>.\<close>

fun np_pow10 :: "npfloat \<Rightarrow> npfloat" where
  "np_pow10 (Fin x) = Fin (10 powr x)"
| "np_pow10 PInf = PInf"
| "np_pow10 NInf = Fin 0"
| "np_pow10 NaN = NaN"

fun np_mul :: "npfloat \<Rightarrow> npfloat \<Rightarrow> npfloat" where
  "np_mul NaN _ = NaN"
| "np_mul _ NaN = NaN"
| "np_mul (Fin x) (Fin y) = Fin (x * y)"
| "np_mul PInf (Fin y) = (if 0 < y then PInf else if y < 0 then NInf else NaN)"
| "np_mul NInf (Fin y) = (if 0 < y then NInf else if y < 0 then PInf else NaN)"
| "np_mul (Fin x) PInf = (if 0 < x then PInf else if x < 0 then NInf else NaN)"
| "np_mul (Fin x) NInf = (if 0 < x then NInf else if x < 0 then PInf else NaN)"
| "np_mul PInf PInf = PInf"
| "np_mul PInf NInf = NInf"
| "np_mul NInf PInf = NInf"
| "np_mul NInf NInf = PInf"

text \<open>A zero divisor is \<^verbatim>\<open>+0.0\<close>, the only zero a magnitude can be.\<close>

fun np_div :: "npfloat \<Rightarrow> npfloat \<Rightarrow> npfloat" where
  "np_div NaN _ = NaN"
| "np_div _ NaN = NaN"
| "np_div (Fin x) (Fin y) =
     (if y \<noteq> 0 then Fin (x / y)
      else if x = 0 then NaN else if 0 < x then PInf else NInf)"
| "np_div (Fin x) _ = Fin 0"
| "np_div PInf (Fin y) = (if 0 \<le> y then PInf else NInf)"
| "np_div NInf (Fin y) = (if 0 \<le> y then NInf else PInf)"
| "np_div _ _ = NaN"

fun np_sub :: "npfloat \<Rightarrow> npfloat \<Rightarrow> npfloat" where
  "np_sub NaN _ = NaN"
| "np_sub _ NaN = NaN"
| "np_sub (Fin x) (Fin y) = Fin (x - y)"
| "np_sub (Fin x) PInf = NInf"
| "np_sub (Fin x) NInf = PInf"
| "np_sub PInf PInf = NaN"
| "np_sub NInf NInf = NaN"
| "np_sub PInf _ = PInf"
| "np_sub NInf _ = NInf"

subsection \<open>adjust_limits\<close>

text \<open>
  The body of \<^verbatim>\<open>adjust_limits\<close>, one definition for each local value the properties
  below speak about, in the order of the source.
  \<^verbatim>\<open>magnitude = 10 ** np.floor(np.log10(max(abs(y_min), abs(y_max))))\<close>
\<close>

definition magnitude_of :: "npfloat \<Rightarrow> npfloat \<Rightarrow> npfloat" where
  "magnitude_of y_min y_max =
     np_pow10 (np_floor (np_log10 (py_max (np_abs y_min) (np_abs y_max))))"

text \<open>\<^verbatim>\<open>np.floor(y / base) * base\<close> and \<^verbatim>\<open>np.ceil(y / base) * base\<close>.\<close>

definition round_down :: "npfloat \<Rightarrow> npfloat \<Rightarrow> npfloat" where
  "round_down y base = np_mul (np_floor (np_div y base)) base"

definition round_up :: "npfloat \<Rightarrow> npfloat \<Rightarrow> npfloat" where
  "round_up y base = np_mul (np_ceil (np_div y base)) base"

definition step_factors :: "real list" where
  "step_factors = [0.005, 0.01, 0.025, 0.05, 0.1, 0.25, 0.5, 1, 2, 2.5]"

definition step_candidates :: "npfloat \<Rightarrow> npfloat list" where
  "step_candidates magnitude = map (\<lambda>k. np_mul magnitude (Fin k)) step_factors"

text \<open>The loop's test \<^verbatim>\<open>(y_max_rounded - y_min_rounded) / step_i <= max_ticks\<close>.\<close>

definition fits :: "npfloat \<Rightarrow> npfloat \<Rightarrow> int \<Rightarrow> npfloat \<Rightarrow> bool" where
  "fits y_min_rounded y_max_rounded max_ticks step_i =
     np_le (np_div (np_sub y_max_rounded y_min_rounded) step_i) (Fin (of_int max_ticks))"

text \<open>
  The \<^verbatim>\<open>for\<close> loop over the candidates: \<open>step\<close> is the value the variable holds when
  the loop is entered, kept when no candidate passes the test; the first candidate that
  passes replaces it and ends the loop.
\<close>

fun choose_step :: "npfloat \<Rightarrow> npfloat \<Rightarrow> int \<Rightarrow> npfloat \<Rightarrow> npfloat list \<Rightarrow> npfloat" where
  "choose_step y_min_rounded y_max_rounded max_ticks step [] = step"
| "choose_step y_min_rounded y_max_rounded max_ticks step (step_i # rest) =
     (if fits y_min_rounded y_max_rounded max_ticks step_i then step_i
      else choose_step y_min_rounded y_max_rounded max_ticks step rest)"

definition adjust_limits ::
  "npfloat \<Rightarrow> npfloat \<Rightarrow> int \<Rightarrow> error + (npfloat \<times> npfloat \<times> npfloat)" where
  "adjust_limits y_min y_max max_ticks =
     (let magnitude = magnitude_of y_min y_max;
          step = np_mul (Fin 5) magnitude;
          round_base = np_div magnitude (Fin 10);
          y_min_rounded = round_down y_min round_base;
          y_max_rounded = round_up y_max round_base;
          step = choose_step y_min_rounded y_max_rounded max_ticks step
                   (step_candidates magnitude);
          y_min_rounded = round_down y_min step;
          y_max_rounded = round_up y_max step
      in Inr (y_min_rounded, y_max_rounded, step))"


section \<open>Quarterly dates\<close>

subsection \<open>Timestamps\<close>

text \<open>
  A \<^verbatim>\<open>pd.Timestamp\<close> counts time from 1970-01-01. The dates this function builds are
  all at midnight, and the index is read as a collection of dates, so a timestamp is
  taken at day granularity: the number of days since 1970-01-01 in the proleptic Gregorian calendar
  (an index entry with a time of day, which no built date can equal, is outside the
  model). The year range is unbounded (the limits of the 64-bit nanosecond count are
  left out).
  \<open>Timestamp year month day\<close> is the constructor \<^verbatim>\<open>pd.Timestamp(year, month, day)\<close>,
  \<open>civil\<close> reads the calendar fields back, \<open>weekday\<close> is \<^verbatim>\<open>Timestamp.weekday()\<close>
  with Monday as 0 (1970-01-01 was a Thursday).
\<close>

type_synonym timestamp = int

definition Timestamp :: "int \<Rightarrow> int \<Rightarrow> int \<Rightarrow> timestamp" where
  "Timestamp year month day =
     (let y = (if month \<le> 2 then year - 1 else year);
          era = y div 400;
          yoe = y mod 400;
          mp = (if month > 2 then month - 3 else month + 9);
          doy = (153 * mp + 2) div 5 + day - 1;
          doe = yoe * 365 + yoe div 4 - yoe div 100 + doy
      in era * 146097 + doe - 719468)"

definition civil :: "timestamp \<Rightarrow> int \<times> int \<times> int" where
  "civil t =
     (let z = t + 719468;
          era = z div 146097;
          doe = z mod 146097;
          yoe = (doe - doe div 1460 + doe div 36524 - doe div 146096) div 365;
          y = yoe + era * 400;
          doy = doe - (365 * yoe + yoe div 4 - yoe div 100);
          mp = (5 * doy + 2) div 153;
          day = doy - (153 * mp + 2) div 5 + 1;
          month = (if mp < 10 then mp + 3 else mp - 9)
      in (if month \<le> 2 then y + 1 else y, month, day))"

definition year :: "timestamp \<Rightarrow> int" where
  "year t = fst (civil t)"

definition weekday :: "timestamp \<Rightarrow> int" where
  "weekday t = (t + 3) mod 7"

definition is_leap_year :: "int \<Rightarrow> bool" where
  "is_leap_year y = (y mod 4 = 0 \<and> (y mod 100 \<noteq> 0 \<or> y mod 400 = 0))"

definition days_in_month :: "int \<Rightarrow> int \<Rightarrow> int" where
  "days_in_month y m =
     (if m = 2 then (if is_leap_year y then 29 else 28)
      else if m \<in> {4, 6, 9, 11} then 30 else 31)"

text \<open>
  \<^verbatim>\<open>t + pd.offsets.MonthEnd(0)\<close> rolls \<open>t\<close> forward to the last day of its month and
  leaves a month end where it is: either way the last day of the month \<open>t\<close> lies in.
\<close>

definition plus_MonthEnd_0 :: "timestamp \<Rightarrow> timestamp" where
  "plus_MonthEnd_0 t = (case civil t of (y, m, d) \<Rightarrow> Timestamp y m (days_in_month y m))"

text \<open>
  \<^verbatim>\<open>t - pd.offsets.Week(weekday=w)\<close> applies the offset with \<open>n = -1\<close>: a date that is
  not on weekday \<open>w\<close> is first moved forward to the next such weekday (which lowers
  only a positive \<open>n\<close>), and then the \<open>n\<close> weeks are added; a date on weekday \<open>w\<close>
  goes back one whole week.
\<close>

definition minus_Week :: "timestamp \<Rightarrow> int \<Rightarrow> timestamp" where
  "minus_Week t w =
     (let k = - 1;
          otherDay = weekday t;
          other = (if otherDay \<noteq> w then t + (w - otherDay) mod 7 else t)
      in other + 7 * k)"

text \<open>\<^verbatim>\<open>t - pd.Timedelta(days=n)\<close>.\<close>

definition minus_Timedelta_days :: "timestamp \<Rightarrow> int \<Rightarrow> timestamp" where
  "minus_Timedelta_days t n = t - n"

subsection \<open>calculate_quarterly_dates\<close>

text \<open>
  The data frame enters only through its index, a list of timestamps (it may repeat
  dates and need not be sorted). The body of the inner loop computes three dates from
  \<open>year\<close> and \<open>quarter_month\<close>; they are named as in the source.
\<close>

definition quarter_months :: "int list" where
  "quarter_months = [3, 6, 9, 12]"

definition last_day :: "int \<Rightarrow> int \<Rightarrow> timestamp" where
  "last_day yr quarter_month = plus_MonthEnd_0 (Timestamp yr quarter_month 1)"

definition last_friday :: "int \<Rightarrow> int \<Rightarrow> timestamp" where
  "last_friday yr quarter_month =
     (if weekday (last_day yr quarter_month) = 4 then last_day yr quarter_month
      else minus_Week (last_day yr quarter_month) 4)"

definition target_day :: "int \<Rightarrow> int \<Rightarrow> int \<Rightarrow> timestamp" where
  "target_day yr quarter_month shift_back_days =
     minus_Timedelta_days (last_friday yr quarter_month) shift_back_days"

text \<open>
  The inner loop over the years and the outer loop over the quarter months; \<open>dates\<close>
  is the list built so far, extended at its end as \<^verbatim>\<open>dates.append\<close> does.
\<close>

fun year_loop :: "timestamp list \<Rightarrow> int \<Rightarrow> int \<Rightarrow> int list \<Rightarrow> timestamp list \<Rightarrow> timestamp list" where
  "year_loop index shift_back_days quarter_month [] dates = dates"
| "year_loop index shift_back_days quarter_month (yr # years) dates =
     year_loop index shift_back_days quarter_month years
       (if target_day yr quarter_month shift_back_days \<in> set index
        then dates @ [target_day yr quarter_month shift_back_days] else dates)"

fun quarter_loop :: "timestamp list \<Rightarrow> int \<Rightarrow> int list \<Rightarrow> int list \<Rightarrow> timestamp list \<Rightarrow> timestamp list" where
  "quarter_loop index shift_back_days years [] dates = dates"
| "quarter_loop index shift_back_days years (quarter_month # months) dates =
     quarter_loop index shift_back_days years months
       (year_loop index shift_back_days quarter_month years dates)"

text \<open>
  \<^verbatim>\<open>df.index.year.min()\<close> and \<^verbatim>\<open>.max()\<close> of an empty index are \<^verbatim>\<open>nan\<close>, a float, and
  \<^verbatim>\<open>range\<close> refuses it with a \<^verbatim>\<open>TypeError\<close>; otherwise the years run over
  \<^verbatim>\<open>range(min, max + 1)\<close>.
\<close>

definition calculate_quarterly_dates :: "timestamp list \<Rightarrow> int \<Rightarrow> error + timestamp list" where
  "calculate_quarterly_dates index shift_back_days =
     (if index = [] then Inl TypeError
      else
        let years = [Min (set (map year index)) .. Max (set (map year index))]
        in Inr (quarter_loop index shift_back_days years quarter_months []))"

section \<open>Facts about the axis limits on finite inputs\<close>

lemma floor_log10_eq:
  assumes "0 < x" and "10 powi k \<le> x" and "x < 10 powi (k + 1)"
  shows "\<lfloor>log 10 x\<rfloor> = k"
proof -
  have "10 powr (of_int k) \<le> x"
    using assms(2) by (simp add: powr_real_of_int')
  moreover have "10 powr (of_int k + 1) = (10::real) powi (k + 1)"
    using powr_real_of_int'[of "10::real" "k + 1"] by simp
  ultimately show ?thesis
    using assms(1) assms(3) by (simp add: floor_log_eq_powr_iff)
qed

lemma magnitude_of_Fin:
  assumes "0 < max \<bar>a\<bar> \<bar>b\<bar>"
  shows "magnitude_of (Fin a) (Fin b) = Fin (10 powr of_int \<lfloor>log 10 (max \<bar>a\<bar> \<bar>b\<bar>)\<rfloor>)"
  using assms by (auto simp: magnitude_of_def py_max_def max_def)

lemma magnitude_of_eval:
  assumes "0 < max \<bar>a\<bar> \<bar>b\<bar>" and "10 powi k \<le> max \<bar>a\<bar> \<bar>b\<bar>"
    and "max \<bar>a\<bar> \<bar>b\<bar> < 10 powi (k + 1)"
  shows "magnitude_of (Fin a) (Fin b) = Fin (10 powi k)"
  using magnitude_of_Fin[OF assms(1)] floor_log10_eq[OF assms]
  by (simp add: powr_real_of_int')

lemma magnitude_of_pos:
  assumes "0 < max \<bar>a\<bar> \<bar>b\<bar>"
  shows "\<exists>m. magnitude_of (Fin a) (Fin b) = Fin m \<and> 0 < m"
  using magnitude_of_Fin[OF assms] by simp

lemma step_candidates_Fin:
  "step_candidates (Fin m) = map Fin (map (\<lambda>k. m * k) step_factors)"
  by (simp add: step_candidates_def)

lemma step_factors_pos: "k \<in> set step_factors \<Longrightarrow> 0 < k"
  by (auto simp: step_factors_def)

lemma step_factors_ascending: "0 < m \<Longrightarrow> sorted_wrt (<) (map (\<lambda>k. m * k) step_factors)"
  by (simp add: step_factors_def)

lemma choose_step_find:
  "choose_step lo hi n d cs = (case find (fits lo hi n) cs of Some c \<Rightarrow> c | None \<Rightarrow> d)"
  by (induction cs) auto

lemma choose_step_Fin:
  assumes "\<forall>c \<in> set cs. c \<noteq> 0"
  shows "choose_step (Fin p) (Fin q) n (Fin d) (map Fin cs) =
         Fin (case find (\<lambda>c. (q - p) / c \<le> of_int n) cs of Some c \<Rightarrow> c | None \<Rightarrow> d)"
  using assms by (induction cs) (auto simp: fits_def)

lemma round_down_Fin: "s \<noteq> 0 \<Longrightarrow> round_down (Fin y) (Fin s) = Fin (of_int \<lfloor>y / s\<rfloor> * s)"
  by (simp add: round_down_def)

lemma round_up_Fin: "s \<noteq> 0 \<Longrightarrow> round_up (Fin y) (Fin s) = Fin (of_int \<lceil>y / s\<rceil> * s)"
  by (simp add: round_up_def)

lemma floor_mult_le: "0 < s \<Longrightarrow> of_int \<lfloor>y / s\<rfloor> * s \<le> (y::real)"
  by (metis floor_divide_lower mult.commute)

lemma ceil_mult_ge: "0 < s \<Longrightarrow> (y::real) \<le> of_int \<lceil>y / s\<rceil> * s"
  by (metis ceiling_divide_upper mult.commute)

text \<open>
  On finite inputs with a positive magnitude \<open>m\<close> every intermediate value is finite:
  the provisional bounds are multiples of \<open>m / 10\<close>, the step \<open>s\<close> is the first
  candidate that passes the test on them, or \<open>5 * m\<close>, and the result is \<open>y_min\<close>
  rounded down and \<open>y_max\<close> rounded up to multiples of \<open>s\<close>.
\<close>

lemma adjust_limits_Fin:
  assumes "magnitude_of (Fin a) (Fin b) = Fin m" and "0 < m"
  shows "\<exists>s. 0 < s \<and>
     s = (case find (\<lambda>c. (of_int \<lceil>b / (m / 10)\<rceil> * (m / 10) - of_int \<lfloor>a / (m / 10)\<rfloor> * (m / 10)) / c
                          \<le> of_int n)
                 (map (\<lambda>k. m * k) step_factors)
          of Some c \<Rightarrow> c | None \<Rightarrow> 5 * m) \<and>
     adjust_limits (Fin a) (Fin b) n =
       Inr (Fin (of_int \<lfloor>a / s\<rfloor> * s), Fin (of_int \<lceil>b / s\<rceil> * s), Fin s)"
proof -
  let ?P = "\<lambda>c. (of_int \<lceil>b / (m / 10)\<rceil> * (m / 10) - of_int \<lfloor>a / (m / 10)\<rfloor> * (m / 10)) / c \<le> of_int n"
  let ?cs = "map (\<lambda>k. m * k) step_factors"
  define s where "s = (case find ?P ?cs of Some c \<Rightarrow> c | None \<Rightarrow> 5 * m)"
  have nz: "\<forall>c \<in> set ?cs. c \<noteq> 0"
    using assms(2) step_factors_pos by fastforce
  have pos: "0 < s"
  proof (cases "find ?P ?cs")
    case None
    then show ?thesis using assms(2) by (simp add: s_def)
  next
    case (Some c)
    then have "c \<in> set ?cs" by (auto simp: find_Some_iff)
    then have "0 < c" using assms(2) step_factors_pos by auto
    then show ?thesis using Some by (simp add: s_def)
  qed
  then have s0: "s \<noteq> 0" by simp
  have m10: "m / 10 \<noteq> 0" using assms(2) by simp
  have ch: "choose_step (round_down (Fin a) (Fin (m / 10))) (round_up (Fin b) (Fin (m / 10))) n
              (Fin (5 * m)) (step_candidates (Fin m)) = Fin s"
    unfolding round_down_Fin[OF m10] round_up_Fin[OF m10] step_candidates_Fin
      choose_step_Fin[OF nz] s_def ..
  have rb: "np_div (Fin m) (Fin 10) = Fin (m / 10)" by simp
  have st: "np_mul (Fin 5) (Fin m) = Fin (5 * m)" by simp
  have "adjust_limits (Fin a) (Fin b) n =
       Inr (Fin (of_int \<lfloor>a / s\<rfloor> * s), Fin (of_int \<lceil>b / s\<rceil> * s), Fin s)"
    unfolding adjust_limits_def Let_def assms(1) rb st ch round_down_Fin[OF s0] round_up_Fin[OF s0] ..
  with pos s_def show ?thesis by blast
qed

text \<open>Magnitudes of the inputs used as examples below.\<close>

lemma magnitude_12_36: "magnitude_of (Fin 12) (Fin 36) = Fin 10"
  using magnitude_of_eval[of 12 36 1] by simp

lemma magnitude_12_88: "magnitude_of (Fin 12) (Fin 88) = Fin 10"
  using magnitude_of_eval[of 12 88 1] by simp

lemma magnitude_0_9: "magnitude_of (Fin 0) (Fin 9) = Fin 1"
  using magnitude_of_eval[of 0 9 0] by simp

lemma magnitude_003_097: "magnitude_of (Fin (3 / 100)) (Fin (97 / 100)) = Fin (1 / 10)"
  using magnitude_of_eval[of "3 / 100" "97 / 100" "- 1"] by simp

lemmas adjust_limits_unfold =
  adjust_limits_def Let_def step_candidates_def step_factors_def round_down_def round_up_def fits_def

lemma adjust_limits_12_88: "adjust_limits (Fin 12) (Fin 88) 10 = Inr (Fin 10, Fin 90, Fin 10)"
  by (simp add: adjust_limits_unfold magnitude_12_88)

section \<open>Properties of the axis limits\<close>

text \<open>
  C1. The claim: whenever some candidate step passes the test on the provisional bounds,
  the returned plan satisfies \<open>(max - min) / step \<le> max_ticks\<close>. The code tests the
  tick count on the provisional bounds only and then rounds again to multiples of the
  chosen step, which can widen the range. At \<open>low = 12\<close>, \<open>high = 36\<close>,
  \<open>max_ticks = 10\<close> the magnitude is 10, the provisional bounds are 12 and 36, the
  candidate 2.5 passes the test (\<open>24 / 2.5 = 9.6\<close>), and the plan returned is
  \<open>(10, 37.5, 2.5)\<close> with \<open>(37.5 - 10) / 2.5 = 11\<close>, above \<open>max_ticks\<close>.
\<close>

theorem adjust_limits_tick_ceiling_exceeded:
  "magnitude_of (Fin 12) (Fin 36) = Fin 10 \<and>
   round_down (Fin 12) (np_div (Fin 10) (Fin 10)) = Fin 12 \<and>
   round_up (Fin 36) (np_div (Fin 10) (Fin 10)) = Fin 36 \<and>
   Fin 2.5 \<in> set (step_candidates (Fin 10)) \<and>
   fits (Fin 12) (Fin 36) 10 (Fin 2.5) \<and>
   adjust_limits (Fin 12) (Fin 36) 10 = Inr (Fin 10, Fin 37.5, Fin 2.5) \<and>
   np_div (np_sub (Fin 37.5) (Fin 10)) (Fin 2.5) = Fin 11 \<and>
   \<not> np_le (np_div (np_sub (Fin 37.5) (Fin 10)) (Fin 2.5)) (Fin (of_int 10))"
  by (simp add: adjust_limits_unfold magnitude_12_36)

text \<open>
  C2. For every finite input \<open>low \<le> high\<close> with \<open>max \<bar>low\<bar> \<bar>high\<bar> > 0\<close> and every
  \<open>max_ticks\<close>, \<open>adjust_limits\<close> returns a plan of three finite values whose minimum
  is at most \<open>low\<close>, whose maximum is at least \<open>high\<close> and whose step is strictly
  positive.
\<close>

theorem adjust_limits_bounds:
  assumes "low \<le> high" and "0 < max \<bar>low\<bar> \<bar>high\<bar>"
  shows "\<exists>mn mx st. adjust_limits (Fin low) (Fin high) max_ticks = Inr (Fin mn, Fin mx, Fin st)
           \<and> mn \<le> low \<and> high \<le> mx \<and> 0 < st"
proof -
  obtain m where m: "magnitude_of (Fin low) (Fin high) = Fin m" "0 < m"
    using magnitude_of_pos[OF assms(2)] by blast
  obtain s where s: "0 < s"
    and r: "adjust_limits (Fin low) (Fin high) max_ticks =
       Inr (Fin (of_int \<lfloor>low / s\<rfloor> * s), Fin (of_int \<lceil>high / s\<rceil> * s), Fin s)"
    using adjust_limits_Fin[OF m, of max_ticks] by blast
  show ?thesis
    using r s floor_mult_le[OF s, of low] ceil_mult_ge[OF s, of high] by blast
qed

theorem adjust_limits_bounds_witness:
  "(12::real) \<le> 88 \<and> 0 < max \<bar>12::real\<bar> \<bar>88\<bar> \<and>
   adjust_limits (Fin 12) (Fin 88) 10 = Inr (Fin 10, Fin 90, Fin 10) \<and>
   (\<exists>mn mx st. adjust_limits (Fin 12) (Fin 88) 10 = Inr (Fin mn, Fin mx, Fin st)
           \<and> mn \<le> 12 \<and> 88 \<le> mx \<and> 0 < st)"
proof -
  have h1: "(12::real) \<le> 88" by simp
  have h2: "0 < max \<bar>12::real\<bar> \<bar>88\<bar>" by simp
  show ?thesis
    by (rule conjI[OF h1 conjI[OF h2 conjI[OF adjust_limits_12_88
          adjust_limits_bounds[OF h1 h2, of 10]]]])
qed

text \<open>
  C3, as amended. For every finite input \<open>low \<le> high\<close> with
  \<open>max \<bar>low\<bar> \<bar>high\<bar> > 0\<close>: the magnitude \<open>m\<close> is positive, the candidates are
  \<open>m * k\<close> for \<open>k\<close> in the list of factors, in strictly ascending order, and the step
  returned is the first candidate \<open>c\<close> in that order with
  \<open>(provisional_max - provisional_min) / c \<le> max_ticks\<close>; if no candidate qualifies, the
  step is \<open>5 * m\<close>, the value the variable is given before the loop (twice the
  largest candidate), not the largest candidate \<open>2.5 * m\<close>.
\<close>

theorem adjust_limits_step_selection:
  assumes "low \<le> high" and "0 < max \<bar>low\<bar> \<bar>high\<bar>"
  shows "\<exists>m pmin pmax mn mx st.
     magnitude_of (Fin low) (Fin high) = Fin m \<and> 0 < m \<and>
     round_down (Fin low) (np_div (Fin m) (Fin 10)) = Fin pmin \<and>
     round_up (Fin high) (np_div (Fin m) (Fin 10)) = Fin pmax \<and>
     step_candidates (Fin m) = map Fin (map (\<lambda>k. m * k) step_factors) \<and>
     sorted_wrt (<) (map (\<lambda>k. m * k) step_factors) \<and>
     adjust_limits (Fin low) (Fin high) max_ticks = Inr (Fin mn, Fin mx, Fin st) \<and>
     st = (case find (\<lambda>c. (pmax - pmin) / c \<le> of_int max_ticks) (map (\<lambda>k. m * k) step_factors)
           of Some c \<Rightarrow> c | None \<Rightarrow> 5 * m)"
proof -
  obtain m where m: "magnitude_of (Fin low) (Fin high) = Fin m" "0 < m"
    using magnitude_of_pos[OF assms(2)] by blast
  have m10: "m / 10 \<noteq> 0" using m(2) by simp
  have rb: "np_div (Fin m) (Fin 10) = Fin (m / 10)" by simp
  obtain s where
    s: "s = (case find (\<lambda>c. (of_int \<lceil>high / (m / 10)\<rceil> * (m / 10)
                               - of_int \<lfloor>low / (m / 10)\<rfloor> * (m / 10)) / c \<le> of_int max_ticks)
                 (map (\<lambda>k. m * k) step_factors)
          of Some c \<Rightarrow> c | None \<Rightarrow> 5 * m)"
    and r: "adjust_limits (Fin low) (Fin high) max_ticks =
       Inr (Fin (of_int \<lfloor>low / s\<rfloor> * s), Fin (of_int \<lceil>high / s\<rceil> * s), Fin s)"
    using adjust_limits_Fin[OF m, of max_ticks] by blast
  show ?thesis
  proof (intro exI conjI)
    show "magnitude_of (Fin low) (Fin high) = Fin m" by (rule m(1))
    show "0 < m" by (rule m(2))
    show "round_down (Fin low) (np_div (Fin m) (Fin 10)) = Fin (of_int \<lfloor>low / (m / 10)\<rfloor> * (m / 10))"
      unfolding rb by (rule round_down_Fin[OF m10])
    show "round_up (Fin high) (np_div (Fin m) (Fin 10)) = Fin (of_int \<lceil>high / (m / 10)\<rceil> * (m / 10))"
      unfolding rb by (rule round_up_Fin[OF m10])
    show "step_candidates (Fin m) = map Fin (map (\<lambda>k. m * k) step_factors)"
      by (rule step_candidates_Fin)
    show "sorted_wrt (<) (map (\<lambda>k. m * k) step_factors)"
      by (rule step_factors_ascending[OF m(2)])
    show "adjust_limits (Fin low) (Fin high) max_ticks =
       Inr (Fin (of_int \<lfloor>low / s\<rfloor> * s), Fin (of_int \<lceil>high / s\<rceil> * s), Fin s)"
      by (rule r)
    show "s = (case find (\<lambda>c. (of_int \<lceil>high / (m / 10)\<rceil> * (m / 10)
                               - of_int \<lfloor>low / (m / 10)\<rfloor> * (m / 10)) / c \<le> of_int max_ticks)
                 (map (\<lambda>k. m * k) step_factors)
          of Some c \<Rightarrow> c | None \<Rightarrow> 5 * m)"
      by (rule s)
  qed
qed

theorem adjust_limits_step_selection_witness:
  "(12::real) \<le> 88 \<and> 0 < max \<bar>12::real\<bar> \<bar>88\<bar> \<and>
   adjust_limits (Fin 12) (Fin 88) 10 = Inr (Fin 10, Fin 90, Fin 10) \<and>
   (\<exists>m pmin pmax mn mx st.
     magnitude_of (Fin 12) (Fin 88) = Fin m \<and> 0 < m \<and>
     round_down (Fin 12) (np_div (Fin m) (Fin 10)) = Fin pmin \<and>
     round_up (Fin 88) (np_div (Fin m) (Fin 10)) = Fin pmax \<and>
     step_candidates (Fin m) = map Fin (map (\<lambda>k. m * k) step_factors) \<and>
     sorted_wrt (<) (map (\<lambda>k. m * k) step_factors) \<and>
     adjust_limits (Fin 12) (Fin 88) 10 = Inr (Fin mn, Fin mx, Fin st) \<and>
     st = (case find (\<lambda>c. (pmax - pmin) / c \<le> of_int 10) (map (\<lambda>k. m * k) step_factors)
           of Some c \<Rightarrow> c | None \<Rightarrow> 5 * m))"
proof -
  have h1: "(12::real) \<le> 88" by simp
  have h2: "0 < max \<bar>12::real\<bar> \<bar>88\<bar>" by simp
  show ?thesis
    by (rule conjI[OF h1 conjI[OF h2 conjI[OF adjust_limits_12_88
          adjust_limits_step_selection[OF h1 h2, of 10]]]])
qed

text \<open>
  C3 as stated fails where no candidate qualifies: at \<open>low = 0\<close>, \<open>high = 9\<close>,
  \<open>max_ticks = 3\<close> the magnitude is 1, the provisional bounds are 0 and 9, no candidate
  passes the test (the largest gives \<open>9 / 2.5 = 3.6\<close>), and the step returned is 5,
  not the largest candidate 2.5.
\<close>

theorem adjust_limits_fallback_counterexample:
  "magnitude_of (Fin 0) (Fin 9) = Fin 1 \<and>
   filter (fits (round_down (Fin 0) (np_div (Fin 1) (Fin 10)))
                (round_up (Fin 9) (np_div (Fin 1) (Fin 10))) 3)
          (step_candidates (Fin 1)) = [] \<and>
   last (step_candidates (Fin 1)) = Fin 2.5 \<and>
   adjust_limits (Fin 0) (Fin 9) 3 = Inr (Fin 0, Fin 10, Fin 5) \<and>
   adjust_limits (Fin 0) (Fin 9) 3 \<noteq> Inr (Fin 0, Fin 10, Fin 2.5)"
  by (simp add: adjust_limits_unfold magnitude_0_9)

text \<open>
  C4, as amended. For \<open>low = 0.03\<close>, \<open>high = 0.97\<close>, \<open>max_ticks = 10\<close> the magnitude is
  0.1 and the plan returned has \<open>min = 0\<close>, \<open>max = 1\<close> and \<open>step = 0.1\<close>: the
  provisional range is 0.94, and 0.1 is the first candidate \<open>c\<close> with \<open>0.94 / c \<le> 10\<close>
  (0.025 gives 37.6 and 0.05 gives 18.8).
\<close>

theorem adjust_limits_example:
  "magnitude_of (Fin 0.03) (Fin 0.97) = Fin 0.1 \<and>
   adjust_limits (Fin 0.03) (Fin 0.97) 10 = Inr (Fin 0, Fin 1, Fin 0.1)"
  by (simp add: adjust_limits_unfold magnitude_003_097)

text \<open>C4 as stated fails: the step returned for that input is not 0.025.\<close>

theorem adjust_limits_example_counterexample:
  "adjust_limits (Fin 0.03) (Fin 0.97) 10 \<noteq> Inr (Fin 0, Fin 1, Fin 0.025)"
  by (simp add: adjust_limits_unfold magnitude_003_097)

text \<open>
  C5, as amended. For \<open>low = 0\<close> and \<open>high = 0\<close> nothing is raised: \<^verbatim>\<open>log10(0)\<close> is
  \<open>-inf\<close>, the magnitude \<^verbatim>\<open>10 ** -inf\<close> is 0, every division by it is \<^verbatim>\<open>0 / 0 = nan\<close>,
  no candidate passes the test, and the call returns the step 0 with both bounds
  \<^verbatim>\<open>nan\<close>, whatever \<open>max_ticks\<close> is.
\<close>

theorem adjust_limits_zero_range:
  "magnitude_of (Fin 0) (Fin 0) = Fin 0 \<and>
   adjust_limits (Fin 0) (Fin 0) max_ticks = Inr (NaN, NaN, Fin 0)"
  by (simp add: adjust_limits_unfold magnitude_of_def py_max_def)

text \<open>C5 as stated fails: the call with the all-zero range returns a result.\<close>

theorem adjust_limits_zero_range_counterexample:
  "adjust_limits (Fin 0) (Fin 0) 10 = Inr (NaN, NaN, Fin 0)"
  by (simp add: adjust_limits_unfold magnitude_of_def py_max_def)

section \<open>Facts about the calendar\<close>

text \<open>Anchors of the day count: the epoch, its weekday, and a known Friday.\<close>

lemma calendar_anchors:
  "Timestamp 1970 1 1 = 0" "civil 0 = (1970, 1, 1)" "weekday (Timestamp 1970 1 1) = 3"
  "Timestamp 2023 6 30 = 19538" "civil 19538 = (2023, 6, 30)" "weekday (Timestamp 2023 6 30) = 4"
  by code_simp+

text \<open>
  Reading the fields back from the first day of a quarter month gives the fields it was
  built from. The year within its 400-year era is recovered by a formula with three
  correction terms; it is checked on each of the 400 years, for the four day-of-year
  offsets (counted from 1 March) of the first of March, June, September and December.
\<close>

lemma yoe_recover_list:
  "list_all (\<lambda>yoe::int. list_all (\<lambda>doy.
      (let doe = yoe * 365 + yoe div 4 - yoe div 100 + doy
       in (doe - doe div 1460 + doe div 36524 - doe div 146096) div 365) = yoe)
      [0, 92, 184, 275]) [0..399]"
  by code_simp

lemma yoe_recover:
  fixes yoe doy :: int
  assumes "0 \<le> yoe" and "yoe < 400" and "doy \<in> {0, 92, 184, 275}"
  shows "(yoe * 365 + yoe div 4 - yoe div 100 + doy
          - (yoe * 365 + yoe div 4 - yoe div 100 + doy) div 1460
          + (yoe * 365 + yoe div 4 - yoe div 100 + doy) div 36524
          - (yoe * 365 + yoe div 4 - yoe div 100 + doy) div 146096) div 365 = yoe"
proof -
  have "yoe \<in> set [0..399]" using assms(1,2) by simp
  moreover have "doy \<in> set [0, 92, 184, 275]" using assms(3) by simp
  ultimately show ?thesis
    using yoe_recover_list unfolding list_all_iff Let_def by blast
qed

lemma doe_bounds:
  fixes yoe doy :: int
  assumes "0 \<le> yoe" and "yoe < 400" and "0 \<le> doy" and "doy \<le> 365"
  shows "0 \<le> yoe * 365 + yoe div 4 - yoe div 100 + doy"
    and "yoe * 365 + yoe div 4 - yoe div 100 + doy < 146097"
  using assms by linarith+

lemma civil_of_parts:
  fixes era yoe doy :: int
  assumes y: "0 \<le> yoe" "yoe < 400" and d: "doy \<in> {0, 92, 184, 275}"
  shows "civil (era * 146097 + (yoe * 365 + yoe div 4 - yoe div 100 + doy) - 719468)
         = (yoe + era * 400, (5 * doy + 2) div 153 + 3, 1)"
proof -
  define doe where "doe = yoe * 365 + yoe div 4 - yoe div 100 + doy"
  have d': "0 \<le> doy" "doy \<le> 365" using d by auto
  have b: "0 \<le> doe" "doe < 146097"
    unfolding doe_def using doe_bounds[OF y d'] by simp_all
  have e: "(era * 146097 + doe) div 146097 = era"
    using b by simp
  have m: "(era * 146097 + doe) mod 146097 = doe"
    using b by simp
  have r: "(doe - doe div 1460 + doe div 36524 - doe div 146096) div 365 = yoe"
    unfolding doe_def using yoe_recover[OF y d] by simp
  have dy: "doe - (365 * yoe + yoe div 4 - yoe div 100) = doy"
    unfolding doe_def by simp
  have z: "era * 146097 + doe - 719468 + 719468 = era * 146097 + doe" by simp
  have c: "civil (era * 146097 + doe - 719468) =
        (let mp = (5 * doy + 2) div 153; day = doy - (153 * mp + 2) div 5 + 1;
             month = (if mp < 10 then mp + 3 else mp - 9)
         in (if month \<le> 2 then yoe + era * 400 + 1 else yoe + era * 400, month, day))"
    unfolding civil_def Let_def z e m r dy ..
  consider "doy = 0" | "doy = 92" | "doy = 184" | "doy = 275" using d by blast
  then have "civil (era * 146097 + doe - 719468) = (yoe + era * 400, (5 * doy + 2) div 153 + 3, 1)"
    unfolding c by cases simp_all
  then show ?thesis unfolding doe_def .
qed

lemma Timestamp_quarter:
  assumes "m \<in> set quarter_months"
  shows "Timestamp y m d =
     (y div 400) * 146097 + ((y mod 400) * 365 + (y mod 400) div 4 - (y mod 400) div 100
            + ((153 * (m - 3) + 2) div 5 + d - 1)) - 719468"
  using assms by (auto simp: Timestamp_def quarter_months_def Let_def)

lemma civil_Timestamp_first:
  assumes "m \<in> set quarter_months"
  shows "civil (Timestamp y m 1) = (y, m, 1)"
proof -
  have y: "0 \<le> y mod 400" "y mod 400 < 400" by simp_all
  have d: "(153 * (m - 3) + 2) div 5 + 1 - 1 \<in> {0, 92, 184, 275}"
    using assms by (auto simp: quarter_months_def)
  have "(5 * ((153 * (m - 3) + 2) div 5 + 1 - 1) + 2) div 153 + 3 = m"
    using assms by (auto simp: quarter_months_def)
  then show ?thesis
    unfolding Timestamp_quarter[OF assms] civil_of_parts[OF y d] by simp
qed

text \<open>
  So \<open>last_day\<close> is the day numbered \<open>days_in_month\<close> of the quarter month, and the day
  after it is the first of the next month.
\<close>

lemma last_day_eq:
  assumes "m \<in> set quarter_months"
  shows "last_day y m = Timestamp y m (days_in_month y m)"
  by (simp add: last_day_def plus_MonthEnd_0_def civil_Timestamp_first[OF assms])

lemma last_day_succ:
  assumes "m \<in> set quarter_months"
  shows "last_day y m + 1 = (if m = 12 then Timestamp (y + 1) 1 1 else Timestamp y (m + 1) 1)"
  using assms unfolding last_day_eq[OF assms]
  by (auto simp: quarter_months_def Timestamp_def days_in_month_def Let_def)

lemma last_friday_props:
  "weekday (last_friday y m) = 4"
  "last_friday y m \<le> last_day y m"
  "weekday (last_day y m) = 4 \<Longrightarrow> last_friday y m = last_day y m"
  "weekday f = 4 \<Longrightarrow> f \<le> last_day y m \<Longrightarrow> f \<le> last_friday y m"
  unfolding last_friday_def minus_Week_def weekday_def Let_def by presburger+

text \<open>The two loops append, month by month, the computed dates that are in the index.\<close>

lemma year_loop_eq:
  "year_loop idx s qm ys dates =
     dates @ filter (\<lambda>t. t \<in> set idx) (map (\<lambda>y. target_day y qm s) ys)"
  by (induction ys arbitrary: dates) auto

lemma quarter_loop_eq:
  "quarter_loop idx s ys ms dates =
     dates @ concat (map (\<lambda>qm. filter (\<lambda>t. t \<in> set idx) (map (\<lambda>y. target_day y qm s) ys)) ms)"
  by (induction ms arbitrary: dates) (auto simp: year_loop_eq)

lemma calculate_quarterly_dates_eq:
  assumes "idx \<noteq> []"
  shows "calculate_quarterly_dates idx s =
     Inr (concat (map (\<lambda>qm. filter (\<lambda>t. t \<in> set idx)
            (map (\<lambda>y. target_day y qm s) [Min (set (map year idx)) .. Max (set (map year idx))]))
          quarter_months))"
  using assms by (simp add: calculate_quarterly_dates_def quarter_loop_eq)

lemma output_set:
  assumes "idx \<noteq> []"
  shows "\<exists>dates. calculate_quarterly_dates idx s = Inr dates \<and>
     set dates = {t \<in> set idx. \<exists>qm \<in> set quarter_months.
                    \<exists>yr \<in> {Min (set (map year idx)) .. Max (set (map year idx))}. t = target_day yr qm s}"
  unfolding calculate_quarterly_dates_eq[OF assms] by auto

lemma no_anchor_empty:
  assumes "idx \<noteq> []"
    and "\<forall>qm \<in> set quarter_months. \<forall>yr \<in> {Min (set (map year idx)) .. Max (set (map year idx))}.
           target_day yr qm s \<notin> set idx"
  shows "calculate_quarterly_dates idx s = Inr []"
  unfolding calculate_quarterly_dates_eq[OF assms(1)] using assms(2)
  by (auto simp: filter_empty_conv)

text \<open>
  From one year to the next the same calendar date moves on by at least 365 days
  (checked year by year within the 400-year era), and the last Friday is at most six
  days before the last day, so the candidates of one quarter month increase with the
  year.
\<close>

lemma year_step_list:
  "list_all (\<lambda>r::int. r * 365 + r div 4 - r div 100 + 365 \<le> (r + 1) * 365 + (r + 1) div 4 - (r + 1) div 100) [0..398]"
  by code_simp

lemma year_step:
  fixes r :: int
  assumes "0 \<le> r" and "r < 399"
  shows "r * 365 + r div 4 - r div 100 + 365 \<le> (r + 1) * 365 + (r + 1) div 4 - (r + 1) div 100"
proof -
  have "r \<in> set [0..398]" using assms by simp
  then show ?thesis using year_step_list unfolding list_all_iff by blast
qed

lemma succ_div_mod:
  fixes q r b :: int
  assumes "0 \<le> r" and "r < b"
  shows "(q * b + r + 1) div b = (if r = b - 1 then q + 1 else q)"
    and "(q * b + r + 1) mod b = (if r = b - 1 then 0 else r + 1)"
proof -
  have b: "0 < b" using assms by linarith
  show "(q * b + r + 1) div b = (if r = b - 1 then q + 1 else q)"
  proof (cases "r = b - 1")
    case True
    then have "q * b + r + 1 = (q + 1) * b" by (simp add: algebra_simps)
    then show ?thesis using True b by simp
  next
    case False
    then have "0 \<le> r + 1" "r + 1 < b" using assms by linarith+
    then have "(r + 1) div b = 0" by (rule div_pos_pos_trivial)
    moreover have "(q * b + (r + 1)) div b = q + (r + 1) div b"
      using b by simp
    ultimately show ?thesis using False by (simp add: add.assoc)
  qed
  show "(q * b + r + 1) mod b = (if r = b - 1 then 0 else r + 1)"
  proof (cases "r = b - 1")
    case True
    then have "q * b + r + 1 = (q + 1) * b" by (simp add: algebra_simps)
    then show ?thesis using True by simp
  next
    case False
    then have "0 \<le> r + 1" "r + 1 < b" using assms by linarith+
    then have "(r + 1) mod b = r + 1" by (rule mod_pos_pos_trivial)
    moreover have "(q * b + (r + 1)) mod b = (r + 1) mod b"
      by simp
    ultimately show ?thesis using False by (simp add: add.assoc)
  qed
qed

lemma day_count_year_step:
  fixes y :: int
  shows "(y div 400) * 146097 + ((y mod 400) * 365 + (y mod 400) div 4 - (y mod 400) div 100) + 365
       \<le> ((y + 1) div 400) * 146097
          + (((y + 1) mod 400) * 365 + ((y + 1) mod 400) div 4 - ((y + 1) mod 400) div 100)"
proof -
  define q where "q = y div 400"
  define r where "r = y mod 400"
  have r: "0 \<le> r" "r < 400" unfolding r_def by simp_all
  have y: "y + 1 = q * 400 + r + 1" unfolding q_def r_def by simp
  have d: "(y + 1) div 400 = (if r = 399 then q + 1 else q)"
    unfolding y using succ_div_mod(1)[OF r, of q] by simp
  have m: "(y + 1) mod 400 = (if r = 399 then 0 else r + 1)"
    unfolding y using succ_div_mod(2)[OF r, of q] by simp
  have "q * 146097 + (r * 365 + r div 4 - r div 100) + 365
       \<le> (if r = 399 then q + 1 else q) * 146097
          + ((if r = 399 then 0 else r + 1) * 365 + (if r = 399 then 0 else r + 1) div 4
             - (if r = 399 then 0 else r + 1) div 100)"
  proof (cases "r = 399")
    case True
    then show ?thesis by simp
  next
    case False
    with r have "0 \<le> r" "r < 399" by linarith+
    from year_step[OF this] False show ?thesis by simp
  qed
  then show ?thesis unfolding d m q_def r_def .
qed

lemma Timestamp_quarter_mono:
  assumes "m \<in> set quarter_months"
  shows "Timestamp y m d + 365 \<le> Timestamp (y + 1) m d"
  unfolding Timestamp_quarter[OF assms] using day_count_year_step[of y] by simp

lemma last_friday_lower: "last_day y m - 6 \<le> last_friday y m"
  unfolding last_friday_def minus_Week_def weekday_def Let_def by presburger

lemma target_day_step:
  assumes "m \<in> set quarter_months"
  shows "target_day y m s < target_day (y + 1) m s"
proof -
  have d: "days_in_month (y + 1) m = days_in_month y m"
    using assms by (auto simp: quarter_months_def days_in_month_def)
  have "last_day y m + 365 \<le> last_day (y + 1) m"
    unfolding last_day_eq[OF assms] d by (rule Timestamp_quarter_mono[OF assms])
  then show ?thesis
    using last_friday_props(2)[of y m] last_friday_lower[of "y + 1" m]
    by (simp add: target_day_def minus_Timedelta_days_def)
qed

lemma target_day_mono:
  assumes "m \<in> set quarter_months" and "y < y'"
  shows "target_day y m s < target_day y' m s"
proof -
  have "0 < n \<Longrightarrow> target_day y m s < target_day (y + int n) m s" for n
  proof (induction n)
    case 0
    then show ?case by simp
  next
    case (Suc n)
    show ?case
    proof (cases "n = 0")
      case True
      then show ?thesis using target_day_step[OF assms(1), of y s] by simp
    next
      case False
      then have "target_day y m s < target_day (y + int n) m s" using Suc.IH by simp
      also have "\<dots> < target_day (y + int n + 1) m s" by (rule target_day_step[OF assms(1)])
      finally show ?thesis by (simp only: of_nat_Suc ac_simps)
    qed
  qed
  from this[of "nat (y' - y)"] assms(2) show ?thesis by simp
qed

lemma group_ascending:
  assumes "m \<in> set quarter_months"
  shows "sorted_wrt (<) (filter P (map (\<lambda>y. target_day y m s) [a..b]))"
proof -
  have "sorted_wrt (<) (map (\<lambda>y. target_day y m s) [a..b])"
    unfolding sorted_wrt_map
    by (rule sorted_wrt_mono_rel[OF _ sorted_wrt_upto]) (rule target_day_mono[OF assms])
  then show ?thesis by (rule sorted_wrt_filter)
qed

lemma target_day_mono_le:
  assumes "m \<in> set quarter_months" and "y \<le> y'"
  shows "target_day y m s \<le> target_day y' m s"
  using target_day_mono[OF assms(1), of y y' s] assms(2) by (cases "y = y'") auto


text \<open>
  A nanosecond \<^verbatim>\<open>Timestamp\<close> reaches from 1677-09-21 (after midnight) to 2262-04-11.
  For years from 1678 to 2261 and a shift between -100 and 180 days every date the
  loop body builds lies inside that range.
\<close>

lemma quarter_bounds_eval:
  "list_all (\<lambda>qm. Timestamp 1677 9 22 + 180 \<le> last_friday 1678 qm \<and>
                    last_day 2261 qm + 100 \<le> Timestamp 2262 4 11) quarter_months"
  by code_simp

lemma built_dates_in_range:
  assumes "qm \<in> set quarter_months" and "1678 \<le> yr" and "yr \<le> 2261"
    and "- 100 \<le> s" and "s \<le> 180"
  shows "Timestamp 1677 9 22 \<le> target_day yr qm s"
    and "target_day yr qm s \<le> Timestamp 2262 4 11"
    and "Timestamp 1677 9 22 \<le> last_friday yr qm"
    and "last_day yr qm \<le> Timestamp 2262 4 11"
proof -
  have e: "Timestamp 1677 9 22 + 180 \<le> last_friday 1678 qm"
    "last_day 2261 qm + 100 \<le> Timestamp 2262 4 11"
    using quarter_bounds_eval assms(1) unfolding list_all_iff by blast+
  have t: "target_day y qm x = last_friday y qm - x" for y x
    by (simp add: target_day_def minus_Timedelta_days_def)
  have lo: "last_friday 1678 qm \<le> last_friday yr qm"
    using target_day_mono_le[OF assms(1,2), of 0] by (simp add: t)
  have hi: "last_friday yr qm \<le> last_friday 2261 qm"
    using target_day_mono_le[OF assms(1,3), of 0] by (simp add: t)
  have hi': "last_day yr qm \<le> last_day 2261 qm + 6"
    using hi last_friday_props(2)[of 2261 qm] last_friday_lower[of yr qm] by linarith
  show "Timestamp 1677 9 22 \<le> target_day yr qm s" using e(1) lo assms(5) by (simp add: t)
  show "target_day yr qm s \<le> Timestamp 2262 4 11"
    using e(2) hi last_friday_props(2)[of 2261 qm] assms(4) by (simp add: t)
  show "Timestamp 1677 9 22 \<le> last_friday yr qm" using e(1) lo by simp
  show "last_day yr qm \<le> Timestamp 2262 4 11" using hi' e(2) by linarith
qed


text \<open>The indexes used as examples below.\<close>

lemma year_2023_06_12: "year (Timestamp 2023 6 12) = 2023"
  by code_simp

lemma calculate_quarterly_dates_2023:
  "calculate_quarterly_dates [Timestamp 2023 6 12] 18 = Inr [Timestamp 2023 6 12]"
  by code_simp

lemma calculate_quarterly_dates_2022_2023:
  "calculate_quarterly_dates [Timestamp 2022 6 6, Timestamp 2023 3 13] 18 =
     Inr [Timestamp 2023 3 13, Timestamp 2022 6 6]"
  by code_simp

lemma year_2023_06_13: "year (Timestamp 2023 6 13) = 2023"
  by code_simp

lemma no_anchor_2023_06_13:
  "list_all (\<lambda>qm. target_day 2023 qm 18 \<noteq> Timestamp 2023 6 13) quarter_months"
  by code_simp

section \<open>Properties of the quarterly dates\<close>

text \<open>
  C6. For every year \<open>yr\<close> of the loop (between the least and the greatest year of a
  non-empty index) and every quarter month in 3, 6, 9, 12: \<open>last_day\<close> is the last
  calendar day of that month (the day numbered \<open>days_in_month\<close>, followed by the first
  of the next month); \<open>last_friday\<close> is a Friday on or before it, no Friday on or before
  the last day is later, and it is the last day itself when that is a Friday; the
  candidate \<open>target_day\<close> is \<open>last_friday\<close> minus \<open>shift_back_days\<close> days; and the call
  returns a list, without error, whose elements are exactly the candidates of the loop
  (of its years and the four quarter months) that are in the index, so that it contains
  the candidate if and only if the index contains it.
\<close>

theorem quarterly_anchor_candidate:
  assumes "index \<noteq> []" and "quarter_month \<in> set quarter_months"
    and "Min (set (map year index)) \<le> yr" and "yr \<le> Max (set (map year index))"
  shows "quarter_months = [3, 6, 9, 12] \<and>
    last_day yr quarter_month = Timestamp yr quarter_month (days_in_month yr quarter_month) \<and>
    last_day yr quarter_month + 1 =
      (if quarter_month = 12 then Timestamp (yr + 1) 1 1 else Timestamp yr (quarter_month + 1) 1) \<and>
    weekday (last_friday yr quarter_month) = 4 \<and>
    last_friday yr quarter_month \<le> last_day yr quarter_month \<and>
    (\<forall>f. weekday f = 4 \<and> f \<le> last_day yr quarter_month \<longrightarrow> f \<le> last_friday yr quarter_month) \<and>
    (weekday (last_day yr quarter_month) = 4 \<longrightarrow>
       last_friday yr quarter_month = last_day yr quarter_month) \<and>
    target_day yr quarter_month shift_back_days = last_friday yr quarter_month - shift_back_days \<and>
    (\<exists>dates. calculate_quarterly_dates index shift_back_days = Inr dates \<and>
       set dates = {t \<in> set index. \<exists>qm \<in> set quarter_months.
                      \<exists>y \<in> {Min (set (map year index)) .. Max (set (map year index))}.
                        t = target_day y qm shift_back_days} \<and>
       (target_day yr quarter_month shift_back_days \<in> set dates \<longleftrightarrow>
        target_day yr quarter_month shift_back_days \<in> set index))"
proof (intro conjI)
  show "quarter_months = [3, 6, 9, 12]" by (rule quarter_months_def)
  show "last_day yr quarter_month = Timestamp yr quarter_month (days_in_month yr quarter_month)"
    by (rule last_day_eq[OF assms(2)])
  show "last_day yr quarter_month + 1 =
      (if quarter_month = 12 then Timestamp (yr + 1) 1 1 else Timestamp yr (quarter_month + 1) 1)"
    by (rule last_day_succ[OF assms(2)])
  show "weekday (last_friday yr quarter_month) = 4"
    by (rule last_friday_props(1))
  show "last_friday yr quarter_month \<le> last_day yr quarter_month"
    by (rule last_friday_props(2))
  show "\<forall>f. weekday f = 4 \<and> f \<le> last_day yr quarter_month \<longrightarrow> f \<le> last_friday yr quarter_month"
    using last_friday_props(4) by blast
  show "weekday (last_day yr quarter_month) = 4 \<longrightarrow>
       last_friday yr quarter_month = last_day yr quarter_month"
    using last_friday_props(3) by blast
  show "target_day yr quarter_month shift_back_days = last_friday yr quarter_month - shift_back_days"
    by (simp add: target_day_def minus_Timedelta_days_def)
  obtain dates where d: "calculate_quarterly_dates index shift_back_days = Inr dates"
    and s: "set dates = {t \<in> set index. \<exists>qm \<in> set quarter_months.
                      \<exists>y \<in> {Min (set (map year index)) .. Max (set (map year index))}.
                        t = target_day y qm shift_back_days}"
    using output_set[OF assms(1), of shift_back_days] by blast
  have m: "yr \<in> {Min (set (map year index)) .. Max (set (map year index))}"
    using assms(3,4) by simp
  have "target_day yr quarter_month shift_back_days \<in> set dates \<longleftrightarrow>
        target_day yr quarter_month shift_back_days \<in> set index"
    unfolding s using assms(2) m by blast
  with d s show "\<exists>dates. calculate_quarterly_dates index shift_back_days = Inr dates \<and>
       set dates = {t \<in> set index. \<exists>qm \<in> set quarter_months.
                      \<exists>y \<in> {Min (set (map year index)) .. Max (set (map year index))}.
                        t = target_day y qm shift_back_days} \<and>
       (target_day yr quarter_month shift_back_days \<in> set dates \<longleftrightarrow>
        target_day yr quarter_month shift_back_days \<in> set index)"
    by blast
qed

theorem quarterly_anchor_candidate_witness:
  "[Timestamp 2023 6 12] \<noteq> [] \<and> 6 \<in> set quarter_months \<and>
   Min (set (map year [Timestamp 2023 6 12])) \<le> 2023 \<and>
   2023 \<le> Max (set (map year [Timestamp 2023 6 12])) \<and>
   last_day 2023 6 = Timestamp 2023 6 (days_in_month 2023 6) \<and>
   last_day 2023 6 + 1 = Timestamp 2023 7 1 \<and>
   weekday (last_friday 2023 6) = 4 \<and>
   last_friday 2023 6 \<le> last_day 2023 6 \<and>
   weekday (last_day 2023 6) = 4 \<and>
   last_friday 2023 6 = last_day 2023 6 \<and>
   target_day 2023 6 18 = last_friday 2023 6 - 18 \<and>
   (\<exists>dates. calculate_quarterly_dates [Timestamp 2023 6 12] 18 = Inr dates \<and>
      (target_day 2023 6 18 \<in> set dates) = (target_day 2023 6 18 \<in> set [Timestamp 2023 6 12]))"
proof -
  have h1: "[Timestamp 2023 6 12] \<noteq> []" by simp
  have h2: "6 \<in> set quarter_months" by (simp add: quarter_months_def)
  have h3: "Min (set (map year [Timestamp 2023 6 12])) \<le> 2023"
    by (simp add: year_2023_06_12)
  have h4: "2023 \<le> Max (set (map year [Timestamp 2023 6 12]))"
    by (simp add: year_2023_06_12)
  note inst = quarterly_anchor_candidate[OF h1 h2 h3 h4, of 18]
  have wd: "weekday (last_day 2023 6) = 4" by code_simp
  from inst have nx: "last_day 2023 6 + 1 = Timestamp 2023 7 1" by simp
  from inst wd have eq: "last_friday 2023 6 = last_day 2023 6" by blast
  from inst have ex: "\<exists>dates. calculate_quarterly_dates [Timestamp 2023 6 12] 18 = Inr dates \<and>
      (target_day 2023 6 18 \<in> set dates) = (target_day 2023 6 18 \<in> set [Timestamp 2023 6 12])"
    by blast
  from inst have rest: "last_day 2023 6 = Timestamp 2023 6 (days_in_month 2023 6)"
    "weekday (last_friday 2023 6) = 4" "last_friday 2023 6 \<le> last_day 2023 6"
    "target_day 2023 6 18 = last_friday 2023 6 - 18"
    by blast+
  show ?thesis
    by (intro conjI) (rule h1 h2 h3 h4 rest nx wd eq ex)+
qed

text \<open>
  C7. For the index holding the single date 2023-06-12 (so the year range is 2023 to
  2023) and \<open>shift_back_days = 18\<close>, the result is exactly \<open>[2023-06-12]\<close>: the last day
  of June 2023 is June 30, a Friday, and 18 days before it is June 12.
\<close>

theorem quarterly_dates_june_2023:
  "year (Timestamp 2023 6 12) = 2023 \<and>
   last_day 2023 6 = Timestamp 2023 6 30 \<and>
   weekday (Timestamp 2023 6 30) = 4 \<and>
   last_friday 2023 6 = Timestamp 2023 6 30 \<and>
   target_day 2023 6 18 = Timestamp 2023 6 12 \<and>
   calculate_quarterly_dates [Timestamp 2023 6 12] 18 = Inr [Timestamp 2023 6 12]"
  by code_simp

text \<open>
  C8. For every non-empty index, the output is the dates emitted for March, then those
  for June, then September, then December, and within each month the years run upwards
  from the least to the greatest year of the index, so that the dates of one month
  are in strictly ascending order. The order of the whole output is not chronological
  in general: for the index \<open>[2022-06-06, 2023-03-13]\<close> the output is
  \<open>[2023-03-13, 2022-06-06]\<close>.
\<close>

theorem quarterly_dates_order:
  assumes "index \<noteq> []"
  shows "calculate_quarterly_dates index shift_back_days =
     Inr (concat (map (\<lambda>quarter_month.
            filter (\<lambda>t. t \<in> set index)
              (map (\<lambda>yr. target_day yr quarter_month shift_back_days)
                 [Min (set (map year index)) .. Max (set (map year index))]))
          [3, 6, 9, 12])) \<and>
   sorted_wrt (<) [Min (set (map year index)) .. Max (set (map year index))] \<and>
   (\<forall>quarter_month \<in> set [3, 6, 9, 12].
      sorted_wrt (<) (filter (\<lambda>t. t \<in> set index)
        (map (\<lambda>yr. target_day yr quarter_month shift_back_days)
           [Min (set (map year index)) .. Max (set (map year index))]))) \<and>
   calculate_quarterly_dates [Timestamp 2022 6 6, Timestamp 2023 3 13] 18 =
     Inr [Timestamp 2023 3 13, Timestamp 2022 6 6] \<and>
   Timestamp 2022 6 6 < Timestamp 2023 3 13"
proof (intro conjI)
  show "calculate_quarterly_dates index shift_back_days =
     Inr (concat (map (\<lambda>quarter_month.
            filter (\<lambda>t. t \<in> set index)
              (map (\<lambda>yr. target_day yr quarter_month shift_back_days)
                 [Min (set (map year index)) .. Max (set (map year index))]))
          [3, 6, 9, 12]))"
    using calculate_quarterly_dates_eq[OF assms] by (simp add: quarter_months_def)
  show "sorted_wrt (<) [Min (set (map year index)) .. Max (set (map year index))]"
    by (rule sorted_wrt_upto)
  show "\<forall>quarter_month \<in> set [3, 6, 9, 12].
      sorted_wrt (<) (filter (\<lambda>t. t \<in> set index)
        (map (\<lambda>yr. target_day yr quarter_month shift_back_days)
           [Min (set (map year index)) .. Max (set (map year index))]))"
    using group_ascending unfolding quarter_months_def by blast
  show "calculate_quarterly_dates [Timestamp 2022 6 6, Timestamp 2023 3 13] 18 =
     Inr [Timestamp 2023 3 13, Timestamp 2022 6 6]"
    by (rule calculate_quarterly_dates_2022_2023)
  show "Timestamp 2022 6 6 < Timestamp 2023 3 13" by code_simp
qed

theorem quarterly_dates_order_witness:
  "[Timestamp 2022 6 6, Timestamp 2023 3 13] \<noteq> [] \<and>
   calculate_quarterly_dates [Timestamp 2022 6 6, Timestamp 2023 3 13] 18 =
     Inr (concat (map (\<lambda>quarter_month.
            filter (\<lambda>t. t \<in> set [Timestamp 2022 6 6, Timestamp 2023 3 13])
              (map (\<lambda>yr. target_day yr quarter_month 18)
                 [Min (set (map year [Timestamp 2022 6 6, Timestamp 2023 3 13])) ..
                  Max (set (map year [Timestamp 2022 6 6, Timestamp 2023 3 13]))]))
          [3, 6, 9, 12]))"
proof -
  have h: "[Timestamp 2022 6 6, Timestamp 2023 3 13] \<noteq> []" by simp
  show ?thesis
    by (rule conjI[OF h conjunct1[OF quarterly_dates_order[OF h, of 18]]])
qed

text \<open>
  C9, as amended. On the empty index the call raises a \<^verbatim>\<open>TypeError\<close> (the year bounds
  of an empty index are \<^verbatim>\<open>nan\<close> and \<^verbatim>\<open>range\<close> rejects them), whatever the shift: the
  function has an error case. On a non-empty index of dates whose years lie between
  1678 and 2261, with a shift between -100 and 180 days, every date the loop builds
  stays inside the range of a \<^verbatim>\<open>Timestamp\<close>, the call returns a list whose elements are
  exactly the computed candidates that are in the index, and the list is empty when
  no candidate is in the index.
\<close>

theorem quarterly_dates_errors:
  "calculate_quarterly_dates [] shift_back_days = Inl TypeError \<and>
   (index \<noteq> [] \<and> 1678 \<le> Min (set (map year index)) \<and> Max (set (map year index)) \<le> 2261 \<and>
    - 100 \<le> shift_back_days \<and> shift_back_days \<le> 180 \<longrightarrow>
      (\<forall>quarter_month \<in> set quarter_months.
         \<forall>yr \<in> {Min (set (map year index)) .. Max (set (map year index))}.
           Timestamp 1677 9 22 \<le> target_day yr quarter_month shift_back_days \<and>
           target_day yr quarter_month shift_back_days \<le> Timestamp 2262 4 11 \<and>
           Timestamp 1677 9 22 \<le> last_friday yr quarter_month \<and>
           last_day yr quarter_month \<le> Timestamp 2262 4 11) \<and>
      (\<exists>dates. calculate_quarterly_dates index shift_back_days = Inr dates \<and>
         set dates = {t \<in> set index. \<exists>quarter_month \<in> set quarter_months.
                        \<exists>yr \<in> {Min (set (map year index)) .. Max (set (map year index))}.
                          t = target_day yr quarter_month shift_back_days}) \<and>
      ((\<forall>quarter_month \<in> set quarter_months.
          \<forall>yr \<in> {Min (set (map year index)) .. Max (set (map year index))}.
            target_day yr quarter_month shift_back_days \<notin> set index) \<longrightarrow>
         calculate_quarterly_dates index shift_back_days = Inr []))"
proof (intro conjI impI ballI)
  show "calculate_quarterly_dates [] shift_back_days = Inl TypeError"
    by (simp add: calculate_quarterly_dates_def)
next
  fix quarter_month yr
  assume h: "index \<noteq> [] \<and> 1678 \<le> Min (set (map year index)) \<and> Max (set (map year index)) \<le> 2261 \<and>
    - 100 \<le> shift_back_days \<and> shift_back_days \<le> 180"
    and q: "quarter_month \<in> set quarter_months"
    and y: "yr \<in> {Min (set (map year index)) .. Max (set (map year index))}"
  from h y have b: "1678 \<le> yr" "yr \<le> 2261" "- 100 \<le> shift_back_days" "shift_back_days \<le> 180"
    by auto
  show "Timestamp 1677 9 22 \<le> target_day yr quarter_month shift_back_days"
    by (rule built_dates_in_range(1)[OF q b])
  show "target_day yr quarter_month shift_back_days \<le> Timestamp 2262 4 11"
    by (rule built_dates_in_range(2)[OF q b])
  show "Timestamp 1677 9 22 \<le> last_friday yr quarter_month"
    by (rule built_dates_in_range(3)[OF q b])
  show "last_day yr quarter_month \<le> Timestamp 2262 4 11"
    by (rule built_dates_in_range(4)[OF q b])
next
  assume h: "index \<noteq> [] \<and> 1678 \<le> Min (set (map year index)) \<and> Max (set (map year index)) \<le> 2261 \<and>
    - 100 \<le> shift_back_days \<and> shift_back_days \<le> 180"
  then have "index \<noteq> []" by simp
  then show "\<exists>dates. calculate_quarterly_dates index shift_back_days = Inr dates \<and>
         set dates = {t \<in> set index. \<exists>quarter_month \<in> set quarter_months.
                        \<exists>yr \<in> {Min (set (map year index)) .. Max (set (map year index))}.
                          t = target_day yr quarter_month shift_back_days}"
    by (rule output_set)
next
  assume h: "index \<noteq> [] \<and> 1678 \<le> Min (set (map year index)) \<and> Max (set (map year index)) \<le> 2261 \<and>
    - 100 \<le> shift_back_days \<and> shift_back_days \<le> 180"
    and n: "\<forall>quarter_month \<in> set quarter_months.
          \<forall>yr \<in> {Min (set (map year index)) .. Max (set (map year index))}.
            target_day yr quarter_month shift_back_days \<notin> set index"
  from h have "index \<noteq> []" by simp
  from no_anchor_empty[OF this n]
  show "calculate_quarterly_dates index shift_back_days = Inr []" .
qed

theorem quarterly_dates_errors_witness:
  "[Timestamp 2023 6 13] \<noteq> [] \<and>
   1678 \<le> Min (set (map year [Timestamp 2023 6 13])) \<and>
   Max (set (map year [Timestamp 2023 6 13])) \<le> 2261 \<and>
   - 100 \<le> (18::int) \<and> (18::int) \<le> 180 \<and>
   calculate_quarterly_dates [Timestamp 2023 6 13] 18 = Inr [] \<and>
   Timestamp 1677 9 22 \<le> target_day 2023 6 18 \<and> target_day 2023 6 18 \<le> Timestamp 2262 4 11"
proof -
  have h: "[Timestamp 2023 6 13] \<noteq> [] \<and>
   1678 \<le> Min (set (map year [Timestamp 2023 6 13])) \<and>
   Max (set (map year [Timestamp 2023 6 13])) \<le> 2261 \<and>
   - 100 \<le> (18::int) \<and> (18::int) \<le> 180"
    by (simp add: year_2023_06_13)
  note inst = mp[OF conjunct2[OF quarterly_dates_errors[of 18 "[Timestamp 2023 6 13]"]] h]
  have n: "\<forall>quarter_month \<in> set quarter_months.
          \<forall>yr \<in> {Min (set (map year [Timestamp 2023 6 13])) .. Max (set (map year [Timestamp 2023 6 13]))}.
            target_day yr quarter_month 18 \<notin> set [Timestamp 2023 6 13]"
    using no_anchor_2023_06_13 unfolding list_all_iff by (simp add: year_2023_06_13)
  from inst n have r: "calculate_quarterly_dates [Timestamp 2023 6 13] 18 = Inr []"
    by blast
  have q: "6 \<in> set quarter_months" by (simp add: quarter_months_def)
  have y: "2023 \<in> {Min (set (map year [Timestamp 2023 6 13])) .. Max (set (map year [Timestamp 2023 6 13]))}"
    by (simp add: year_2023_06_13)
  from inst q y have b: "Timestamp 1677 9 22 \<le> target_day 2023 6 18"
    "target_day 2023 6 18 \<le> Timestamp 2262 4 11"
    by blast+
  show ?thesis using h r b by blast
qed


text \<open>C9 as stated fails: on the empty index the call raises.\<close>

theorem quarterly_dates_empty_counterexample:
  "calculate_quarterly_dates [] 18 = Inl TypeError"
  by (simp add: calculate_quarterly_dates_def)

section \<open>Properties of the label font size\<close>

text \<open>
  C10. For every input string, \<open>get_font_size\<close> returns one of 7, 8, 9, 10, and it is
  monotone non-increasing in the length of the string: whenever \<open>s\<close> is at most as long
  as \<open>t\<close>, the size chosen for \<open>s\<close> is at least the size chosen for \<open>t\<close>.
\<close>

theorem get_font_size_range_antimono:
  "get_font_size s \<in> {7, 8, 9, 10} \<and>
   (length s \<le> length t \<longrightarrow> get_font_size s \<ge> get_font_size t)"
  by (simp add: get_font_size_def Let_def)

theorem get_font_size_range_antimono_witness:
  "get_font_size ''close_d'' \<in> {7, 8, 9, 10} \<and>
   length ''close_d'' \<le> length ''relative_strength_index'' \<and>
   get_font_size ''close_d'' = 10 \<and> get_font_size ''relative_strength_index'' = 7 \<and>
   get_font_size ''close_d'' \<ge> get_font_size ''relative_strength_index''"
  using get_font_size_range_antimono [of "''close_d''" "''relative_strength_index''"]
  by (simp add: get_font_size_def Let_def)

end
